theory Spec2Isabelle
  imports Main "HOL-Library.Word"
begin

section \<open>JavaScript values and browser storage\<close>

text \<open>
  The program is the login module of the Tile Inventory app (\<^verbatim>\<open>js/auth.js\<close>, the version
  with \<^verbatim>\<open>createUser\<close>, \<^verbatim>\<open>getSession\<close> and \<^verbatim>\<open>authenticate\<close>). It keeps a user list and a
  "remember me" name in \<^verbatim>\<open>localStorage\<close> and the current session in \<^verbatim>\<open>sessionStorage\<close>.

  A JavaScript string is a sequence of UTF-16 code units; a \<^typ>\<open>char\<close> here is a code unit
  below 256 (ASCII and Latin-1), so \<^typ>\<open>string\<close> covers the strings made of those.
\<close>

text \<open>
  The values \<^verbatim>\<open>JSON.parse\<close> can return. A number is kept as the text \<^verbatim>\<open>String\<close> prints for
  it (\<^verbatim>\<open>0\<close> and \<^verbatim>\<open>-0\<close> both print \<^verbatim>\<open>0\<close>); an object is the list of its properties in
  order. \<^verbatim>\<open>undefined\<close> is not a JSON value: a value that may be undefined is an
  \<open>option\<close>.
\<close>

datatype json =
    JNull
  | JBool bool
  | JNum string
  | JStr string
  | JArr "json list"
  | JObj "(string \<times> json) list"

text \<open>What the program can throw: the engine's \<^verbatim>\<open>TypeError\<close> and \<^verbatim>\<open>SyntaxError\<close>, and
  its own \<^verbatim>\<open>new Error(message)\<close>.\<close>

datatype js_error = TypeError | SyntaxError | Error string

text \<open>
  A string held by a storage key that the program hands to \<^verbatim>\<open>JSON.parse\<close>. The program
  looks at such a string in two ways only, \<^verbatim>\<open>!raw\<close> and \<^verbatim>\<open>JSON.parse(raw)\<close>, and every
  string is of exactly one of three kinds: the empty string (falsy, and no JSON text), a
  non-empty string that is no JSON text, and a JSON text, which stands for the value it
  parses to.
\<close>

datatype item = Empty | Malformed | Json json

text \<open>
  The three keys of the program: \<^verbatim>\<open>USERS_KEY\<close> and \<^verbatim>\<open>REMEMBER_KEY\<close> in \<^verbatim>\<open>localStorage\<close>,
  \<^verbatim>\<open>SESSION_KEY\<close> in \<^verbatim>\<open>sessionStorage\<close>. \<^verbatim>\<open>getItem\<close> of a key that is not set is
  \<^verbatim>\<open>null\<close>, here \<^const>\<open>None\<close>. The remembered name is read as a plain string.
\<close>

record storage =
  tia_users :: "item option"
  tia_remember :: "string option"
  tia_session :: "item option"

subsection \<open>Built-in operations the program calls\<close>

text \<open>\<^verbatim>\<open>JSON.parse(raw)\<close> for a string \<^verbatim>\<open>raw\<close>.\<close>

fun JSON_parse :: "item \<Rightarrow> js_error + json" where
  "JSON_parse Empty = Inl SyntaxError"
| "JSON_parse Malformed = Inl SyntaxError"
| "JSON_parse (Json v) = Inr v"

text \<open>\<^verbatim>\<open>JSON.parse(storage.getItem(key))\<close>: \<^verbatim>\<open>null\<close> is converted to the text \<^verbatim>\<open>null\<close>.\<close>

fun JSON_parse_item :: "item option \<Rightarrow> js_error + json" where
  "JSON_parse_item None = Inr JNull"
| "JSON_parse_item (Some raw) = JSON_parse raw"

text \<open>
  \<^verbatim>\<open>JSON.stringify\<close> writes every value as it is, except a number that is not finite,
  which it writes as \<^verbatim>\<open>null\<close>. (\<^verbatim>\<open>JSON.parse\<close> returns \<^verbatim>\<open>Infinity\<close> for a text such as
  \<^verbatim>\<open>1e999\<close>.) \<open>printed v\<close> is the value the written text parses to.
\<close>

primrec printed :: "json \<Rightarrow> json" where
  "printed JNull = JNull"
| "printed (JBool b) = JBool b"
| "printed (JNum n) =
     (if n = ''Infinity'' \<or> n = ''-Infinity'' \<or> n = ''NaN'' then JNull else JNum n)"
| "printed (JStr s) = JStr s"
| "printed (JArr xs) = JArr (map printed xs)"
| "printed (JObj ps) = JObj (map (map_prod id printed) ps)"

definition JSON_stringify :: "json \<Rightarrow> item" where
  "JSON_stringify v = Json (printed v)"

text \<open>\<^verbatim>\<open>JSON.stringify\<close> of an object literal leaves out the properties whose value is
  \<^verbatim>\<open>undefined\<close>.\<close>

fun defined_props :: "(string \<times> json option) list \<Rightarrow> (string \<times> json) list" where
  "defined_props [] = []"
| "defined_props ((k, None) # ps) = defined_props ps"
| "defined_props ((k, Some v) # ps) = (k, v) # defined_props ps"

text \<open>Truthiness, for \<^verbatim>\<open>!x\<close>, \<^verbatim>\<open>if (x)\<close> and \<^verbatim>\<open>x || y\<close>.\<close>

fun truthy :: "json \<Rightarrow> bool" where
  "truthy JNull = False"
| "truthy (JBool b) = b"
| "truthy (JNum n) = (n \<noteq> ''0'' \<and> n \<noteq> ''NaN'')"
| "truthy (JStr s) = (s \<noteq> [])"
| "truthy (JArr xs) = True"
| "truthy (JObj ps) = True"

text \<open>\<^verbatim>\<open>!raw\<close> for what \<^verbatim>\<open>getItem\<close> returned: \<^verbatim>\<open>null\<close> and the empty string are falsy,
  every other string is truthy.\<close>

fun falsy_text :: "item option \<Rightarrow> bool" where
  "falsy_text None = True"
| "falsy_text (Some Empty) = True"
| "falsy_text (Some raw) = False"

text \<open>
  Reading a property \<^verbatim>\<open>x.k\<close>, for a name \<open>k\<close> that no prototype, array or string
  defines (the program reads \<^verbatim>\<open>id\<close>, \<^verbatim>\<open>username\<close>, \<^verbatim>\<open>passwordHash\<close> and \<^verbatim>\<open>role\<close> this way):
  only an object can have it, and reading from \<^verbatim>\<open>null\<close> throws.
\<close>

fun property :: "json \<Rightarrow> string \<Rightarrow> js_error + json option" where
  "property JNull k = Inl TypeError"
| "property (JObj ps) k = Inr (map_of ps k)"
| "property v k = Inr None"

text \<open>
  \<^verbatim>\<open>String(x)\<close>, the conversion \<^verbatim>\<open>setItem\<close> applies to its value. An array is joined
  with commas, \<^verbatim>\<open>null\<close> elements printed as nothing; an object prints as
  \<^verbatim>\<open>[object Object]\<close>, unless it has a property \<^verbatim>\<open>toString\<close> of its own, which (coming
  from JSON) is no function, and then the conversion throws.
\<close>

fun join_comma :: "(js_error + string) list \<Rightarrow> js_error + string" where
  "join_comma [] = Inr []"
| "join_comma [x] = x"
| "join_comma (x # y # ys) =
     (case x of Inl e \<Rightarrow> Inl e
      | Inr a \<Rightarrow> (case join_comma (y # ys) of Inl e \<Rightarrow> Inl e | Inr b \<Rightarrow> Inr (a @ '','' @ b)))"

fun js_String :: "json \<Rightarrow> js_error + string" where
  "js_String JNull = Inr ''null''"
| "js_String (JBool b) = Inr (if b then ''true'' else ''false'')"
| "js_String (JNum n) = Inr n"
| "js_String (JStr s) = Inr s"
| "js_String (JArr xs) =
     join_comma (map (\<lambda>x. if x = JNull then Inr [] else js_String x) xs)"
| "js_String (JObj ps) =
     (if ''toString'' \<in> fst ` set ps then Inl TypeError else Inr ''[object Object]'')"

fun js_String_opt :: "json option \<Rightarrow> js_error + string" where
  "js_String_opt None = Inr ''undefined''"
| "js_String_opt (Some v) = js_String v"

text \<open>
  \<^verbatim>\<open>toLowerCase\<close> on the code units below 256: the capitals are \<^verbatim>\<open>A\<close> to \<^verbatim>\<open>Z\<close> and
  U+00C0 to U+00DE without the multiplication sign U+00D7; each is 32 below its small
  letter.
\<close>

definition lower_char :: "char \<Rightarrow> char" where
  "lower_char c =
     (let n = (of_char c :: nat)
      in if (65 \<le> n \<and> n \<le> 90) \<or> (192 \<le> n \<and> n \<le> 222 \<and> n \<noteq> 215)
         then char_of (n + 32) else c)"

definition toLowerCase :: "string \<Rightarrow> string" where
  "toLowerCase s = map lower_char s"

text \<open>
  \<^verbatim>\<open>toUpperCase\<close>, which the program does not call; it is here to speak of the upper-case
  form of a name. The form is given by its code units, since it can leave the code units
  below 256: the sharp s U+00DF becomes \<^verbatim>\<open>SS\<close>, the micro sign U+00B5 becomes U+039C, and
  U+00FF becomes U+0178; a small letter \<^verbatim>\<open>a\<close> to \<^verbatim>\<open>z\<close> or U+00E0 to U+00FE (without the
  division sign U+00F7) becomes the capital 32 below it; every other code unit stays.
\<close>

definition upper_char :: "char \<Rightarrow> nat list" where
  "upper_char c =
     (let n = (of_char c :: nat)
      in if n = 223 then [83, 83]
         else if n = 181 then [924]
         else if n = 255 then [376]
         else if (97 \<le> n \<and> n \<le> 122) \<or> (224 \<le> n \<and> n \<le> 254 \<and> n \<noteq> 247)
         then [n - 32] else [n])"

definition toUpperCase :: "string \<Rightarrow> nat list" where
  "toUpperCase s = concat (map upper_char s)"

text \<open>The code units of a string of the model, and the strings of ASCII characters.\<close>

definition code_units :: "string \<Rightarrow> nat list" where
  "code_units s = map of_char s"

definition ascii :: "string \<Rightarrow> bool" where
  "ascii s = list_all (\<lambda>c. (of_char c :: nat) < 128) s"

text \<open>The decimal text of an integer, as the template literal prints \<^verbatim>\<open>Date.now()\<close>.\<close>

fun digits :: "nat \<Rightarrow> string" where
  "digits n = (if n < 10 then [char_of (48 + n)]
               else digits (n div 10) @ [char_of (48 + n mod 10)])"

declare digits.simps [simp del]

definition number_text :: "int \<Rightarrow> string" where
  "number_text i = (if i < 0 then CHR ''-'' # digits (nat (- i)) else digits (nat i))"

section \<open>The program\<close>

subsection \<open>Password hashing\<close>

text \<open>\<^verbatim>\<open>bufToHex\<close> (lines 17 to 20): every byte as two hexadecimal digits, small
  letters, padded with \<^verbatim>\<open>0\<close>.\<close>

definition hex_digit :: "nat \<Rightarrow> char" where
  "hex_digit n = (if n < 10 then char_of (48 + n) else char_of (87 + n))"

definition byte_hex :: "8 word \<Rightarrow> string" where
  "byte_hex b = [hex_digit (unat b div 16), hex_digit (unat b mod 16)]"

definition bufToHex :: "8 word list \<Rightarrow> string" where
  "bufToHex buffer = concat (map byte_hex buffer)"

text \<open>
  \<^verbatim>\<open>hashPassword\<close> (lines 23 to 28). The parameter \<open>digest\<close> is the browser's
  \<^verbatim>\<open>crypto.subtle.digest('SHA-256', new TextEncoder().encode(password))\<close>, a function of
  the password. The \<^verbatim>\<open>await\<close> is the only suspension point; the model runs every
  operation to its end before the next one starts.
\<close>

definition hashPassword :: "(string \<Rightarrow> 8 word list) \<Rightarrow> string \<Rightarrow> string" where
  "hashPassword digest password = bufToHex (digest password)"

subsection \<open>User store\<close>

text \<open>\<^verbatim>\<open>loadUsers\<close> (lines 31 to 40): the \<^verbatim>\<open>catch\<close> turns the error of \<^verbatim>\<open>JSON.parse\<close> into the
  empty array; a value that parses is returned as it is.\<close>

definition loadUsers :: "storage \<Rightarrow> js_error + json" where
  "loadUsers s =
     (let raw = tia_users s
      in if falsy_text raw then Inr (JArr [])
         else (case JSON_parse_item raw of
                 Inr v \<Rightarrow> Inr v
               | Inl e \<Rightarrow> Inr (JArr [])))"

text \<open>\<^verbatim>\<open>saveUsers\<close> (lines 42 to 44).\<close>

definition saveUsers :: "json \<Rightarrow> storage \<Rightarrow> storage" where
  "saveUsers users s = s\<lparr>tia_users := Some (JSON_stringify users)\<rparr>"

text \<open>
  The callback of \<^verbatim>\<open>find\<close> and \<^verbatim>\<open>some\<close> (lines 48 and 55),
  \<^verbatim>\<open>u => u.username.toLowerCase() === username.toLowerCase()\<close>. Only a string has a
  method \<^verbatim>\<open>toLowerCase\<close>; calling it on anything else throws.
\<close>

definition same_name :: "string \<Rightarrow> json \<Rightarrow> js_error + bool" where
  "same_name username u =
     (case property u ''username'' of
        Inl e \<Rightarrow> Inl e
      | Inr (Some (JStr n)) \<Rightarrow> Inr (toLowerCase n = toLowerCase username)
      | Inr other \<Rightarrow> Inl TypeError)"

text \<open>\<^verbatim>\<open>Array.prototype.find\<close> and \<^verbatim>\<open>Array.prototype.some\<close>: left to right, stopping at
  the first element the callback accepts, or where it throws.\<close>

fun array_find :: "(json \<Rightarrow> js_error + bool) \<Rightarrow> json list \<Rightarrow> js_error + json option" where
  "array_find f [] = Inr None"
| "array_find f (x # xs) =
     (case f x of Inl e \<Rightarrow> Inl e
      | Inr b \<Rightarrow> if b then Inr (Some x) else array_find f xs)"

fun array_some :: "(json \<Rightarrow> js_error + bool) \<Rightarrow> json list \<Rightarrow> js_error + bool" where
  "array_some f [] = Inr False"
| "array_some f (x # xs) =
     (case f x of Inl e \<Rightarrow> Inl e
      | Inr b \<Rightarrow> if b then Inr True else array_some f xs)"

text \<open>\<^verbatim>\<open>x || null\<close>.\<close>

fun or_null :: "json option \<Rightarrow> json" where
  "or_null None = JNull"
| "or_null (Some v) = (if truthy v then v else JNull)"

text \<open>\<^verbatim>\<open>findUserByUsername\<close> (lines 46 to 49). Only an array has a method \<^verbatim>\<open>find\<close>; a
  record that matches is an object, hence truthy.\<close>

definition findUserByUsername :: "storage \<Rightarrow> string \<Rightarrow> js_error + json" where
  "findUserByUsername s username =
     (case loadUsers s of
        Inl e \<Rightarrow> Inl e
      | Inr (JArr xs) \<Rightarrow>
          (case array_find (same_name username) xs of
             Inl e \<Rightarrow> Inl e
           | Inr found \<Rightarrow> Inr (or_null found))
      | Inr other \<Rightarrow> Inl TypeError)"

text \<open>
  \<^verbatim>\<open>createUser\<close> (lines 51 to 66); \<open>now\<close> is what \<^verbatim>\<open>Date.now()\<close> returns during the call.
  The result is the value returned or the error thrown, and the storage afterwards.
\<close>

definition createUser ::
  "(string \<Rightarrow> 8 word list) \<Rightarrow> int \<Rightarrow> string \<Rightarrow> string \<Rightarrow> string \<Rightarrow> storage
     \<Rightarrow> (js_error + json) \<times> storage" where
  "createUser digest now username plainPassword role s =
     (if username = [] \<or> plainPassword = []
      then (Inl (Error ''username and password required''), s)
      else
        let hash = hashPassword digest plainPassword
        in (case loadUsers s of
              Inl e \<Rightarrow> (Inl e, s)
            | Inr (JArr xs) \<Rightarrow>
                (case array_some (same_name username) xs of
                   Inl e \<Rightarrow> (Inl e, s)
                 | Inr exists \<Rightarrow>
                     if exists then (Inl (Error ''User already exists''), s)
                     else
                       let user = JObj [(''id'', JStr (''u_'' @ number_text now)),
                                        (''username'', JStr username),
                                        (''passwordHash'', JStr hash),
                                        (''role'', JStr role)]
                       in (Inr user, saveUsers (JArr (xs @ [user])) s))
            | Inr other \<Rightarrow> (Inl TypeError, s)))"

subsection \<open>Default admin\<close>

text \<open>
  \<^verbatim>\<open>users.length === 0\<close>: the length of an array or of a string, the property \<^verbatim>\<open>length\<close>
  of an object, \<^verbatim>\<open>undefined\<close> for a number or a boolean; reading it from \<^verbatim>\<open>null\<close> throws.
\<close>

fun length_is_0 :: "json \<Rightarrow> js_error + bool" where
  "length_is_0 JNull = Inl TypeError"
| "length_is_0 (JArr xs) = Inr (xs = [])"
| "length_is_0 (JStr s) = Inr (s = [])"
| "length_is_0 (JObj ps) = Inr (map_of ps ''length'' = Some (JNum ''0''))"
| "length_is_0 v = Inr False"

text \<open>\<^verbatim>\<open>ensureDefaultAdmin\<close> (lines 69 to 82): an error of \<^verbatim>\<open>createUser\<close> is caught and
  logged.\<close>

definition ensureDefaultAdmin ::
  "(string \<Rightarrow> 8 word list) \<Rightarrow> int \<Rightarrow> storage \<Rightarrow> (js_error + unit) \<times> storage" where
  "ensureDefaultAdmin digest now s =
     (case loadUsers s of
        Inl e \<Rightarrow> (Inl e, s)
      | Inr users \<Rightarrow>
          (case length_is_0 users of
             Inl e \<Rightarrow> (Inl e, s)
           | Inr no_users \<Rightarrow>
               if no_users
               then (case createUser digest now ''admin@example.com'' ''admin123'' ''admin'' s of
                       (Inl e, s') \<Rightarrow> (Inr (), s')
                     | (Inr user, s') \<Rightarrow> (Inr (), s'))
               else (Inr (), s)))"

subsection \<open>Session\<close>

text \<open>
  \<^verbatim>\<open>setSession\<close> (lines 85 to 99); \<open>stamp\<close> is \<^verbatim>\<open>new Date().toISOString()\<close> at the call. The three
  properties are read first (reading from \<^verbatim>\<open>null\<close> throws before anything is written),
  then the session is written, then the remembered name is set or removed.
\<close>

definition setSession :: "string \<Rightarrow> json \<Rightarrow> bool \<Rightarrow> storage \<Rightarrow> (js_error + unit) \<times> storage" where
  "setSession stamp user remember s =
     (case property user ''id'' of
        Inl e \<Rightarrow> (Inl e, s)
      | Inr uid \<Rightarrow>
     (case property user ''username'' of
        Inl e \<Rightarrow> (Inl e, s)
      | Inr uname \<Rightarrow>
     (case property user ''role'' of
        Inl e \<Rightarrow> (Inl e, s)
      | Inr urole \<Rightarrow>
          let session = JObj (defined_props [(''id'', uid), (''username'', uname),
                                             (''role'', urole), (''createdAt'', Some (JStr stamp))]);
              s1 = s\<lparr>tia_session := Some (JSON_stringify session)\<rparr>
          in if remember
             then (case js_String_opt uname of
                     Inl e \<Rightarrow> (Inl e, s1)
                   | Inr name \<Rightarrow> (Inr (), s1\<lparr>tia_remember := Some name\<rparr>))
             else (Inr (), s1\<lparr>tia_remember := None\<rparr>))))"

text \<open>\<^verbatim>\<open>clearSession\<close> (lines 101 to 104) removes the session item and nothing else.\<close>

definition clearSession :: "storage \<Rightarrow> storage" where
  "clearSession s = s\<lparr>tia_session := None\<rparr>"

text \<open>
  \<^verbatim>\<open>getSession\<close> (lines 106 to 125). With no session item (or the empty string) it tries
  the remembered name: a user found under it is given a new session, which is read back
  and returned. A session item that is there is parsed; one that does not parse gives
  \<^verbatim>\<open>null\<close>.
\<close>

definition getSession :: "string \<Rightarrow> storage \<Rightarrow> (js_error + json) \<times> storage" where
  "getSession stamp s =
     (let raw = tia_session s
      in if falsy_text raw
         then
           (case tia_remember s of
              None \<Rightarrow> (Inr JNull, s)
            | Some remembered \<Rightarrow>
                if remembered = [] then (Inr JNull, s)
                else (case findUserByUsername s remembered of
                        Inl e \<Rightarrow> (Inl e, s)
                      | Inr user \<Rightarrow>
                          if truthy user
                          then (case setSession stamp user True s of
                                  (Inl e, s') \<Rightarrow> (Inl e, s')
                                | (Inr u, s') \<Rightarrow> (JSON_parse_item (tia_session s'), s'))
                          else (Inr JNull, s)))
         else (case JSON_parse_item raw of
                 Inr v \<Rightarrow> (Inr v, s)
               | Inl e \<Rightarrow> (Inr JNull, s)))"

text \<open>\<^verbatim>\<open>isAuthenticated\<close> (lines 127 to 129): \<^verbatim>\<open>!!getSession()\<close>.\<close>

definition isAuthenticated :: "string \<Rightarrow> storage \<Rightarrow> (js_error + bool) \<times> storage" where
  "isAuthenticated stamp s =
     (case getSession stamp s of
        (Inl e, s') \<Rightarrow> (Inl e, s')
      | (Inr v, s') \<Rightarrow> (Inr (truthy v), s'))"

subsection \<open>Authentication\<close>

text \<open>The two shapes of the object \<^verbatim>\<open>authenticate\<close> returns: \<^verbatim>\<open>{ success: true, user }\<close>
  and \<^verbatim>\<open>{ success: false, message }\<close>.\<close>

datatype auth_result = Success json | Failure string

text \<open>\<^verbatim>\<open>authenticate\<close> (lines 132 to 140). \<^verbatim>\<open>hash !== user.passwordHash\<close> compares a string
  with whatever the property holds; they are equal only when it holds the same string.\<close>

definition authenticate ::
  "(string \<Rightarrow> 8 word list) \<Rightarrow> storage \<Rightarrow> string \<Rightarrow> string \<Rightarrow> js_error + auth_result" where
  "authenticate digest s username plainPassword =
     (case findUserByUsername s username of
        Inl e \<Rightarrow> Inl e
      | Inr user \<Rightarrow>
          if \<not> truthy user then Inr (Failure ''User not found'')
          else
            let hash = hashPassword digest plainPassword
            in (case property user ''passwordHash'' of
                  Inl e \<Rightarrow> Inl e
                | Inr stored \<Rightarrow>
                    if Some (JStr hash) \<noteq> stored then Inr (Failure ''Invalid credentials'')
                    else Inr (Success user)))"

text \<open>\<^verbatim>\<open>window.tiaAuth.login\<close> (lines 215 to 219) and \<^verbatim>\<open>logout\<close> (lines 203 to 208, without
  the page navigation).\<close>

definition login ::
  "(string \<Rightarrow> 8 word list) \<Rightarrow> string \<Rightarrow> string \<Rightarrow> string \<Rightarrow> bool \<Rightarrow> storage
     \<Rightarrow> (js_error + auth_result) \<times> storage" where
  "login digest stamp username password remember s =
     (case authenticate digest s username password of
        Inl e \<Rightarrow> (Inl e, s)
      | Inr (Success user) \<Rightarrow>
          (case setSession stamp user remember s of
             (Inl e, s') \<Rightarrow> (Inl e, s')
           | (Inr u, s') \<Rightarrow> (Inr (Success user), s'))
      | Inr (Failure message) \<Rightarrow> (Inr (Failure message), s))"

definition logout :: "bool \<Rightarrow> storage \<Rightarrow> storage" where
  "logout forget s =
     (let s1 = clearSession s
      in if forget then s1\<lparr>tia_remember := None\<rparr> else s1)"

section \<open>Notions of the specification\<close>

text \<open>The specification's names for the two errors of \<^verbatim>\<open>createUser\<close> and the two failures
  of \<^verbatim>\<open>authenticate\<close>.\<close>

definition InvalidInput :: js_error where
  "InvalidInput = Error ''username and password required''"

definition DuplicateUser :: js_error where
  "DuplicateUser = Error ''User already exists''"

definition UserNotFound :: auth_result where
  "UserNotFound = Failure ''User not found''"

definition InvalidCredentials :: auth_result where
  "InvalidCredentials = Failure ''Invalid credentials''"

text \<open>The user name of a stored value: the string in the property \<^verbatim>\<open>username\<close> of an
  object. \<open>name_key\<close> is the name as the program compares it, in small letters.\<close>

definition username_of :: "json \<Rightarrow> string option" where
  "username_of u =
     (case u of
        JObj ps \<Rightarrow> (case map_of ps ''username'' of Some (JStr n) \<Rightarrow> Some n | other \<Rightarrow> None)
      | other \<Rightarrow> None)"

definition name_key :: "json \<Rightarrow> string option" where
  "name_key u = map_option toLowerCase (username_of u)"

definition has_username :: "json \<Rightarrow> bool" where
  "has_username u = (username_of u \<noteq> None)"

text \<open>\<open>u\<close> matches the name \<open>username\<close> case-insensitively.\<close>

definition matches :: "string \<Rightarrow> json \<Rightarrow> bool" where
  "matches username u = (name_key u = Some (toLowerCase username))"

text \<open>A UserRecord as \<^verbatim>\<open>createUser\<close> builds it: the four properties, all strings. A user
  list is an array of them.\<close>

fun is_string :: "json \<Rightarrow> bool" where
  "is_string (JStr s) = True"
| "is_string v = False"

definition user_record :: "json \<Rightarrow> bool" where
  "user_record u =
     (case u of
        JObj ps \<Rightarrow> map fst ps = [''id'', ''username'', ''passwordHash'', ''role'']
                   \<and> list_all is_string (map snd ps)
      | other \<Rightarrow> False)"

definition user_list :: "json \<Rightarrow> bool" where
  "user_list v = (case v of JArr xs \<Rightarrow> list_all user_record xs | other \<Rightarrow> False)"

text \<open>The object \<^verbatim>\<open>createUser\<close> builds and returns.\<close>

definition new_user ::
  "(string \<Rightarrow> 8 word list) \<Rightarrow> int \<Rightarrow> string \<Rightarrow> string \<Rightarrow> string \<Rightarrow> json" where
  "new_user digest now username plainPassword role =
     JObj [(''id'', JStr (''u_'' @ number_text now)),
           (''username'', JStr username),
           (''passwordHash'', JStr (hashPassword digest plainPassword)),
           (''role'', JStr role)]"

text \<open>The number a decimal text stands for.\<close>

definition digit_value :: "char \<Rightarrow> nat" where
  "digit_value c = of_char c - 48"

definition digits_value :: "string \<Rightarrow> nat" where
  "digits_value cs = foldl (\<lambda>n c. 10 * n + digit_value c) 0 cs"

text \<open>The invariant of the directory: what is stored is an array of values with user
  names, no two of them equal up to case.\<close>

definition unique_usernames :: "storage \<Rightarrow> bool" where
  "unique_usernames s =
     (case loadUsers s of
        Inr (JArr xs) \<Rightarrow> list_all has_username xs \<and> distinct (map name_key xs)
      | other \<Rightarrow> False)"

text \<open>What holds of the directory in every state the program gets into (shown below):
  it is an array of user records, no name is empty, and no two names are equal up to
  case.\<close>

definition well_formed :: "storage \<Rightarrow> bool" where
  "well_formed s =
     (case loadUsers s of
        Inr (JArr xs) \<Rightarrow> list_all user_record xs
                         \<and> list_all (\<lambda>x. username_of x \<noteq> Some []) xs
                         \<and> distinct (map name_key xs)
      | other \<Rightarrow> False)"

text \<open>
  The storage states the program gets into, from any state whose directory loads as
  empty, by the operations it offers to the pages (\<^verbatim>\<open>window.tiaAuth\<close>); \<^verbatim>\<open>isAuthenticated\<close>
  changes the storage as \<^verbatim>\<open>getSession\<close> does.
\<close>

inductive reachable :: "(string \<Rightarrow> 8 word list) \<Rightarrow> storage \<Rightarrow> bool"
  for digest :: "string \<Rightarrow> 8 word list" where
  start: "loadUsers s = Inr (JArr []) \<Longrightarrow> reachable digest s"
| create: "reachable digest s \<Longrightarrow>
     reachable digest (snd (createUser digest now username plainPassword role s))"
| ensure: "reachable digest s \<Longrightarrow> reachable digest (snd (ensureDefaultAdmin digest now s))"
| log_in: "reachable digest s \<Longrightarrow>
     reachable digest (snd (login digest stamp username password remember s))"
| log_out: "reachable digest s \<Longrightarrow> reachable digest (logout forget s)"
| session: "reachable digest s \<Longrightarrow> reachable digest (snd (getSession stamp s))"

code_pred reachable .

text \<open>For the examples: a storage with nothing set, and a stand-in for the SHA-256 digest
  (the code units of the password themselves).\<close>

definition no_items :: storage where
  "no_items = \<lparr>tia_users = None, tia_remember = None, tia_session = None\<rparr>"

definition demo_digest :: "string \<Rightarrow> 8 word list" where
  "demo_digest password = map of_char password"

text \<open>The record of a user \<^verbatim>\<open>Bob\<close> with password \<^verbatim>\<open>pw\<close>, created at clock reading 1723,
  and the storage that holds him alone.\<close>

definition bob :: json where
  "bob = JObj [(''id'', JStr ''u_1723''), (''username'', JStr ''Bob''),
               (''passwordHash'', JStr ''7077''), (''role'', JStr ''admin'')]"

definition bob_only :: storage where
  "bob_only = \<lparr>tia_users = Some (Json (JArr [bob])), tia_remember = None, tia_session = None\<rparr>"

text \<open>The record of a user \<^verbatim>\<open>Alice\<close> with password \<^verbatim>\<open>pw2\<close>, created at the same clock
  reading as Bob, and the storage that holds both.\<close>

definition alice :: json where
  "alice = JObj [(''id'', JStr ''u_1723''), (''username'', JStr ''Alice''),
                 (''passwordHash'', JStr ''707732''), (''role'', JStr ''viewer'')]"

definition bob_and_alice :: storage where
  "bob_and_alice =
     \<lparr>tia_users = Some (Json (JArr [bob, alice])), tia_remember = None, tia_session = None\<rparr>"

text \<open>A storage that remembers a name no user has, and one that holds Bob, remembers
  him, and has the empty string under the session key.\<close>

definition remembered_ghost :: storage where
  "remembered_ghost = \<lparr>tia_users = None, tia_remember = Some ''ghost'', tia_session = None\<rparr>"

definition bob_blank_session :: storage where
  "bob_blank_session =
     \<lparr>tia_users = Some (Json (JArr [bob])), tia_remember = Some ''Bob'',
      tia_session = Some Empty\<rparr>"

section \<open>Properties\<close>

subsection \<open>Writing and reading back\<close>

lemma printed_string: "is_string v \<Longrightarrow> printed v = v"
  by (cases v) simp_all

lemma printed_props: "list_all is_string (map snd ps) \<Longrightarrow> map (map_prod id printed) ps = ps"
  by (induction ps) (auto simp: printed_string)

lemma printed_user_record: "user_record u \<Longrightarrow> printed u = u"
  by (cases u) (simp_all add: user_record_def printed_props)

lemma printed_user_list: "user_list v \<Longrightarrow> printed v = v"
  by (cases v) (simp_all add: user_list_def list_all_iff map_idI printed_user_record)

lemma loadUsers_eq:
  "loadUsers s =
     Inr (case tia_users s of
            None \<Rightarrow> JArr [] | Some Empty \<Rightarrow> JArr [] | Some Malformed \<Rightarrow> JArr []
          | Some (Json v) \<Rightarrow> v)"
  by (simp add: loadUsers_def split: option.split item.split)

lemma loadUsers_saveUsers: "loadUsers (saveUsers users s) = Inr (printed users)"
  by (simp add: loadUsers_eq saveUsers_def JSON_stringify_def)

subsection \<open>Loading the directory\<close>

text \<open>
  C3, as the program has it. \<^verbatim>\<open>loadUsers\<close> never throws. It returns the empty array when
  the key is not set, holds the empty string or holds a string that is no JSON text.
  Otherwise it returns whatever value the stored text parses to, array or not; that is a
  list of user records whenever the text was written by \<^verbatim>\<open>saveUsers\<close> from such a list.
\<close>

theorem loadUsers_never_throws:
  "loadUsers s =
     Inr (case tia_users s of
            None \<Rightarrow> JArr [] | Some Empty \<Rightarrow> JArr [] | Some Malformed \<Rightarrow> JArr []
          | Some (Json v) \<Rightarrow> v)
   \<and> (user_list users \<longrightarrow> loadUsers (saveUsers users s) = Inr users)"
  by (simp add: loadUsers_eq saveUsers_def JSON_stringify_def printed_user_list)

theorem loadUsers_never_throws_witness:
  "user_list (JArr [JObj [(''id'', JStr ''u_1''), (''username'', JStr ''bob''),
                          (''passwordHash'', JStr ''00''), (''role'', JStr ''admin'')]])
   \<and> loadUsers (saveUsers (JArr [JObj [(''id'', JStr ''u_1''), (''username'', JStr ''bob''),
                          (''passwordHash'', JStr ''00''), (''role'', JStr ''admin'')]]) no_items)
       = Inr (JArr [JObj [(''id'', JStr ''u_1''), (''username'', JStr ''bob''),
                          (''passwordHash'', JStr ''00''), (''role'', JStr ''admin'')]])"
proof -
  have h: "user_list (JArr [JObj [(''id'', JStr ''u_1''), (''username'', JStr ''bob''),
                          (''passwordHash'', JStr ''00''), (''role'', JStr ''admin'')]])"
    by (simp add: user_list_def user_record_def)
  from h loadUsers_never_throws [of no_items
      "JArr [JObj [(''id'', JStr ''u_1''), (''username'', JStr ''bob''),
                   (''passwordHash'', JStr ''00''), (''role'', JStr ''admin'')]]"]
  show ?thesis by blast
qed

text \<open>
  C3 as stated fails: where the key holds the JSON text \<^verbatim>\<open>{"users":[]}\<close>, \<^verbatim>\<open>loadUsers\<close>
  returns that object, which is no sequence of user records.
\<close>

theorem loadUsers_object_counterexample:
  "loadUsers (no_items\<lparr>tia_users := Some (Json (JObj [(''users'', JArr [])]))\<rparr>)
     = Inr (JObj [(''users'', JArr [])])
   \<and> \<not> user_list (JObj [(''users'', JArr [])])"
  by (simp add: loadUsers_def no_items_def user_list_def)

subsection \<open>Evaluating examples\<close>

lemmas js_eval =
  toLowerCase_def lower_char_def upper_char_def toUpperCase_def code_units_def ascii_def
  char_of_def bit_Suc_0_iff
  hashPassword_def demo_digest_def bufToHex_def byte_hex_def hex_digit_def
  number_text_def digits.simps
  username_of_def name_key_def matches_def has_username_def
  loadUsers_eq saveUsers_def JSON_stringify_def
  no_items_def bob_def bob_only_def remembered_ghost_def bob_blank_session_def
  new_user_def Let_def

lemma createUser_bob:
  "createUser demo_digest 1723 ''Bob'' ''pw'' ''admin'' no_items = (Inr bob, bob_only)"
  by (simp add: createUser_def js_eval)

subsection \<open>Looking a name up\<close>

lemma same_name_eq:
  "same_name username u =
     (case username_of u of
        Some n \<Rightarrow> Inr (toLowerCase n = toLowerCase username)
      | None \<Rightarrow> Inl TypeError)"
  by (cases u) (simp_all add: same_name_def username_of_def split: option.split json.split)

lemma same_name_matches: "has_username u \<Longrightarrow> same_name username u = Inr (matches username u)"
  by (auto simp: same_name_eq has_username_def matches_def name_key_def)

lemma same_name_Inr: "same_name username u = Inr b \<Longrightarrow> has_username u \<and> b = matches username u"
  by (auto simp: same_name_eq has_username_def matches_def name_key_def split: option.splits)

lemma same_name_lower:
  "toLowerCase v = toLowerCase username \<Longrightarrow> same_name v u = same_name username u"
  by (simp add: same_name_eq split: option.split)

lemma map_of_printed: "map_of (map (map_prod id printed) ps) k = map_option printed (map_of ps k)"
  by (induction ps) auto

lemma username_of_printed: "username_of (printed u) = username_of u"
proof (cases u)
  case (JObj ps)
  show ?thesis
  proof (cases "map_of ps ''username''")
    case None
    with JObj show ?thesis by (simp add: username_of_def map_of_printed)
  next
    case (Some v)
    with JObj show ?thesis by (cases v) (simp_all add: username_of_def map_of_printed)
  qed
qed (simp_all add: username_of_def)

lemma same_name_printed: "same_name username (printed u) = same_name username u"
  by (simp add: same_name_eq username_of_printed)

lemma array_find_matches:
  "list_all has_username xs \<Longrightarrow> array_find (same_name username) xs = Inr (find (matches username) xs)"
  by (induction xs) (simp_all add: same_name_matches)

lemma array_some_matches:
  "list_all has_username xs \<Longrightarrow>
     array_some (same_name username) xs = Inr (\<exists>x\<in>set xs. matches username x)"
  by (induction xs) (simp_all add: same_name_matches)

lemma array_some_Inr:
  "array_some (same_name username) xs = Inr b \<Longrightarrow>
     (b \<longleftrightarrow> (\<exists>x\<in>set xs. matches username x)) \<and> (\<not> b \<longrightarrow> list_all has_username xs)"
proof (induction xs)
  case Nil
  then show ?case by simp
next
  case (Cons x xs)
  then show ?case
    by (auto split: sum.splits if_splits dest: same_name_Inr)
qed

lemma array_some_append:
  "array_some f (xs @ ys) =
     (case array_some f xs of
        Inl e \<Rightarrow> Inl e
      | Inr b \<Rightarrow> if b then Inr True else array_some f ys)"
  by (induction xs) (simp_all split: sum.split)

lemma array_some_map_printed:
  "array_some (same_name username) (map printed xs) = array_some (same_name username) xs"
  by (induction xs) (simp_all add: same_name_printed split: sum.split)

lemma array_find_append:
  "array_find f (xs @ ys) =
     (case array_find f xs of
        Inl e \<Rightarrow> Inl e
      | Inr None \<Rightarrow> array_find f ys
      | Inr (Some x) \<Rightarrow> Inr (Some x))"
  by (induction xs) (simp_all split: sum.split)

lemma has_username_truthy: "has_username u \<Longrightarrow> truthy u"
  by (cases u) (simp_all add: has_username_def username_of_def)

lemma has_username_property:
  "has_username u \<Longrightarrow> \<exists>ps. u = JObj ps"
  by (cases u) (simp_all add: has_username_def username_of_def)

lemma findUserByUsername_find:
  assumes "loadUsers s = Inr (JArr xs)" and "list_all has_username xs"
  shows "findUserByUsername s username =
           Inr (case find (matches username) xs of None \<Rightarrow> JNull | Some user \<Rightarrow> user)"
proof (cases "find (matches username) xs")
  case None
  with assms show ?thesis
    by (simp add: findUserByUsername_def array_find_matches)
next
  case (Some user)
  then have "user \<in> set xs"
    by (auto simp: find_Some_iff)
  with assms(2) have "truthy user"
    by (simp add: list_all_iff has_username_truthy)
  with assms Some show ?thesis
    by (simp add: findUserByUsername_def array_find_matches)
qed

subsection \<open>Authentication\<close>

text \<open>
  C1. Where the directory is an array of records with user names, \<^verbatim>\<open>authenticate\<close> looks
  for the first record whose name matches case-insensitively. If there is none it returns
  the failure UserNotFound. Otherwise it compares the hash of the given password with the
  stored \<^verbatim>\<open>passwordHash\<close>: the failure InvalidCredentials on mismatch, success with the
  whole stored record on match.
\<close>

theorem authenticate_verdict:
  assumes "loadUsers s = Inr (JArr xs)" and "list_all has_username xs"
  shows "authenticate digest s username plainPassword =
           Inr (case find (matches username) xs of
                  None \<Rightarrow> UserNotFound
                | Some user \<Rightarrow>
                    if property user ''passwordHash''
                         = Inr (Some (JStr (hashPassword digest plainPassword)))
                    then Success user else InvalidCredentials)"
proof (cases "find (matches username) xs")
  case None
  with assms show ?thesis
    by (simp add: authenticate_def findUserByUsername_find UserNotFound_def)
next
  case (Some user)
  then have "user \<in> set xs"
    by (auto simp: find_Some_iff)
  with assms(2) have u: "has_username user"
    by (simp add: list_all_iff)
  then obtain ps where ps: "user = JObj ps"
    using has_username_property by blast
  from assms Some u show ?thesis
    by (auto simp: authenticate_def findUserByUsername_find has_username_truthy ps
        InvalidCredentials_def)
qed

theorem authenticate_verdict_witness:
  "loadUsers bob_only = Inr (JArr [bob]) \<and> list_all has_username [bob]
   \<and> authenticate demo_digest bob_only ''BOB'' ''pw'' = Inr (Success bob)
   \<and> authenticate demo_digest bob_only ''bob'' ''wrong'' = Inr InvalidCredentials
   \<and> authenticate demo_digest bob_only ''alice'' ''pw'' = Inr UserNotFound"
proof -
  have h1: "loadUsers bob_only = Inr (JArr [bob])"
    by (simp add: js_eval)
  have h2: "list_all has_username [bob]"
    by (simp add: js_eval)
  from h1 h2
    authenticate_verdict [OF h1 h2, of demo_digest "''BOB''" "''pw''"]
    authenticate_verdict [OF h1 h2, of demo_digest "''bob''" "''wrong''"]
    authenticate_verdict [OF h1 h2, of demo_digest "''alice''" "''pw''"]
  show ?thesis
    by (simp add: js_eval)
qed

subsection \<open>Creating a user\<close>

lemma createUser_invalid:
  "username = [] \<or> plainPassword = [] \<Longrightarrow>
     createUser digest now username plainPassword role s = (Inl InvalidInput, s)"
  by (auto simp: createUser_def InvalidInput_def)

lemma createUser_array:
  assumes "username \<noteq> []" and "plainPassword \<noteq> []" and "loadUsers s = Inr (JArr xs)"
  shows "createUser digest now username plainPassword role s =
           (case array_some (same_name username) xs of
              Inl e \<Rightarrow> (Inl e, s)
            | Inr b \<Rightarrow>
                if b then (Inl DuplicateUser, s)
                else (Inr (new_user digest now username plainPassword role),
                      saveUsers (JArr (xs @ [new_user digest now username plainPassword role])) s))"
  using assms
  by (simp add: createUser_def DuplicateUser_def new_user_def Let_def split: sum.split)

lemma createUser_not_array:
  assumes "loadUsers s = Inr v" and "\<forall>xs. v \<noteq> JArr xs"
  shows "fst (createUser digest now username plainPassword role s) \<noteq> Inr user"
  using assms by (cases v) (simp_all add: createUser_def Let_def)

lemma createUser_Inr:
  assumes ok: "createUser digest now username plainPassword role s = (Inr user, s')"
  shows "username \<noteq> [] \<and> plainPassword \<noteq> []
         \<and> user = new_user digest now username plainPassword role
         \<and> (\<exists>xs. loadUsers s = Inr (JArr xs)
                 \<and> array_some (same_name username) xs = Inr False
                 \<and> s' = saveUsers (JArr (xs @ [user])) s)"
proof -
  have ne: "username \<noteq> [] \<and> plainPassword \<noteq> []"
    using ok createUser_invalid [of username plainPassword digest now role s] by auto
  obtain v where v: "loadUsers s = Inr v"
    by (simp add: loadUsers_eq)
  have "\<exists>xs. v = JArr xs"
    using createUser_not_array [OF v, of digest now username plainPassword role user] ok by auto
  then obtain xs where xs: "loadUsers s = Inr (JArr xs)"
    using v by auto
  from ne have eq: "createUser digest now username plainPassword role s =
           (case array_some (same_name username) xs of
              Inl e \<Rightarrow> (Inl e, s)
            | Inr b \<Rightarrow>
                if b then (Inl DuplicateUser, s)
                else (Inr (new_user digest now username plainPassword role),
                      saveUsers (JArr (xs @ [new_user digest now username plainPassword role])) s))"
    by (simp add: createUser_array [OF _ _ xs])
  show ?thesis
  proof (cases "array_some (same_name username) xs")
    case (Inl e)
    with eq ok show ?thesis by simp
  next
    case (Inr b)
    with eq ok ne xs show ?thesis by (cases b) auto
  qed
qed

lemma user_record_new_user: "user_record (new_user digest now username plainPassword role)"
  by (simp add: user_record_def new_user_def)

lemma username_of_new_user:
  "username_of (new_user digest now username plainPassword role) = Some username"
  by (simp add: username_of_def new_user_def)

lemma same_name_new_user:
  "same_name v (new_user digest now username plainPassword role)
     = Inr (toLowerCase username = toLowerCase v)"
  by (simp add: same_name_eq username_of_new_user)

lemma loadUsers_after_push:
  "loadUsers (saveUsers (JArr (xs @ [new_user digest now username plainPassword role])) s)
     = Inr (JArr (map printed xs @ [new_user digest now username plainPassword role]))"
  by (simp add: loadUsers_saveUsers printed_user_record user_record_new_user)

lemma createUser_again:
  assumes first: "createUser digest now username plainPassword role s = (Inr user, s')"
    and same: "toLowerCase v = toLowerCase username"
    and v: "v \<noteq> []" and q: "q \<noteq> []"
  shows "createUser digest now' v q role' s' = (Inl DuplicateUser, s')"
proof -
  from createUser_Inr [OF first] obtain xs where
    user: "user = new_user digest now username plainPassword role"
    and none: "array_some (same_name username) xs = Inr False"
    and s': "s' = saveUsers (JArr (xs @ [user])) s"
    by blast
  have fn: "same_name v = same_name username"
    by (rule ext) (rule same_name_lower [OF same])
  have load: "loadUsers s' = Inr (JArr (map printed xs @ [user]))"
    by (simp add: s' user loadUsers_after_push)
  have "array_some (same_name v) (map printed xs @ [user]) = Inr True"
    by (simp add: array_some_append fn array_some_map_printed none user same_name_new_user)
  with createUser_array [OF v q load] show ?thesis
    by simp
qed

text \<open>
  C2, as the program has it. \<^verbatim>\<open>createUser\<close> fails with InvalidInput whenever the user name
  or the password is empty, whatever the directory holds. With both non-empty it fails
  with DuplicateUser whenever the directory (an array of records with user names) has a
  record whose name matches case-insensitively; in particular a second call, after a
  successful one, with a name that differs in case only. In each of these failures the
  storage is unchanged.
\<close>

theorem createUser_rejects:
  "(username = [] \<or> plainPassword = [] \<longrightarrow>
      createUser digest now username plainPassword role s = (Inl InvalidInput, s))
   \<and> (username \<noteq> [] \<and> plainPassword \<noteq> [] \<and> loadUsers s = Inr (JArr xs)
        \<and> list_all has_username xs \<and> (\<exists>x\<in>set xs. matches username x) \<longrightarrow>
      createUser digest now username plainPassword role s = (Inl DuplicateUser, s))
   \<and> (createUser digest now' v q role' s0 = (Inr user, s) \<and> username \<noteq> []
        \<and> plainPassword \<noteq> [] \<and> toLowerCase username = toLowerCase v \<longrightarrow>
      createUser digest now username plainPassword role s = (Inl DuplicateUser, s))"
proof (intro conjI impI)
  assume "username = [] \<or> plainPassword = []"
  then show "createUser digest now username plainPassword role s = (Inl InvalidInput, s)"
    by (rule createUser_invalid)
next
  assume a: "username \<noteq> [] \<and> plainPassword \<noteq> [] \<and> loadUsers s = Inr (JArr xs)
        \<and> list_all has_username xs \<and> (\<exists>x\<in>set xs. matches username x)"
  then have "array_some (same_name username) xs = Inr True"
    by (simp add: array_some_matches)
  with a show "createUser digest now username plainPassword role s = (Inl DuplicateUser, s)"
    by (simp add: createUser_array)
next
  assume "createUser digest now' v q role' s0 = (Inr user, s) \<and> username \<noteq> []
        \<and> plainPassword \<noteq> [] \<and> toLowerCase username = toLowerCase v"
  then show "createUser digest now username plainPassword role s = (Inl DuplicateUser, s)"
    by (blast intro: createUser_again)
qed

theorem createUser_rejects_witness:
  "createUser demo_digest 1800 ''Bob'' [] ''admin'' bob_only = (Inl InvalidInput, bob_only)
   \<and> loadUsers bob_only = Inr (JArr [bob]) \<and> list_all has_username [bob]
   \<and> (\<exists>x\<in>set [bob]. matches ''BOB'' x)
   \<and> createUser demo_digest 1723 ''Bob'' ''pw'' ''admin'' no_items = (Inr bob, bob_only)
   \<and> toLowerCase ''BOB'' = toLowerCase ''Bob''
   \<and> createUser demo_digest 1800 ''BOB'' ''pw2'' ''viewer'' bob_only = (Inl DuplicateUser, bob_only)"
proof -
  have h1: "loadUsers bob_only = Inr (JArr [bob])"
    by (simp add: js_eval)
  have h2: "list_all has_username [bob]"
    by (simp add: js_eval)
  have h3: "\<exists>x\<in>set [bob]. matches ''BOB'' x"
    by (simp add: js_eval)
  have h4: "toLowerCase ''BOB'' = toLowerCase ''Bob''"
    by (simp add: js_eval)
  note a = createUser_rejects [where username = "''Bob''" and plainPassword = "[]"
      and digest = demo_digest and now = 1800 and role = "''admin''" and s = bob_only]
  note b = createUser_rejects [where username = "''BOB''" and plainPassword = "''pw2''"
      and digest = demo_digest and now = 1800 and role = "''viewer''" and s = bob_only
      and xs = "[bob]" and now' = 1723 and v = "''Bob''" and q = "''pw''"
      and role' = "''admin''" and ?s0.0 = no_items and user = bob]
  from a have "createUser demo_digest 1800 ''Bob'' [] ''admin'' bob_only
                 = (Inl InvalidInput, bob_only)"
    by simp
  moreover from b h1 h2 h3
  have "createUser demo_digest 1800 ''BOB'' ''pw2'' ''viewer'' bob_only
          = (Inl DuplicateUser, bob_only)"
    by simp
  ultimately show ?thesis
    using h1 h2 h3 h4 createUser_bob by simp
qed

text \<open>
  C2 as stated fails where both of its cases apply: with Bob in the directory,
  \<^verbatim>\<open>createUser('bob', '')\<close> meets a matching record, yet fails with InvalidInput, not with
  DuplicateUser, since the empty password is checked first.
\<close>

theorem createUser_empty_password_counterexample:
  "loadUsers bob_only = Inr (JArr [bob]) \<and> matches ''bob'' bob
   \<and> createUser demo_digest 1800 ''bob'' [] ''admin'' bob_only = (Inl InvalidInput, bob_only)
   \<and> InvalidInput \<noteq> DuplicateUser"
  by (simp add: createUser_def InvalidInput_def DuplicateUser_def js_eval)

subsection \<open>The default admin\<close>

lemma createUser_Inl:
  "fst (createUser digest now username plainPassword role s) = Inl e \<Longrightarrow>
     snd (createUser digest now username plainPassword role s) = s"
proof (cases "username = [] \<or> plainPassword = []")
  case True
  then show ?thesis by (simp add: createUser_invalid)
next
  case False
  obtain v where v: "loadUsers s = Inr v"
    by (simp add: loadUsers_eq)
  assume e: "fst (createUser digest now username plainPassword role s) = Inl e"
  show ?thesis
  proof (cases "\<exists>xs. v = JArr xs")
    case True
    then obtain xs where "loadUsers s = Inr (JArr xs)"
      using v by auto
    with False e show ?thesis
      by (simp add: createUser_array split: sum.splits if_splits)
  next
    case False
    with v \<open>\<not> (username = [] \<or> plainPassword = [])\<close> show ?thesis
      by (cases v) (simp_all add: createUser_def Let_def)
  qed
qed

lemma ensure_empty:
  "loadUsers s = Inr (JArr []) \<Longrightarrow>
     ensureDefaultAdmin digest now s =
       (Inr (), saveUsers (JArr [new_user digest now ''admin@example.com'' ''admin123'' ''admin'']) s)"
  by (simp add: ensureDefaultAdmin_def createUser_array)

lemma ensure_nonempty:
  "loadUsers s = Inr (JArr (x # xs)) \<Longrightarrow> ensureDefaultAdmin digest now s = (Inr (), s)"
  by (simp add: ensureDefaultAdmin_def)

lemma ensure_state:
  "snd (ensureDefaultAdmin digest now s) = s
   \<or> snd (ensureDefaultAdmin digest now s)
       = snd (createUser digest now ''admin@example.com'' ''admin123'' ''admin'' s)"
  by (auto simp: ensureDefaultAdmin_def loadUsers_eq split: sum.splits prod.splits)

text \<open>
  C9. Where the directory loads as the empty array, \<^verbatim>\<open>ensureDefaultAdmin\<close> returns normally
  and leaves a directory of exactly one record, the admin with the fixed name and
  password; a second call then leaves that directory as it is. Where the directory is an
  array with at least one element, the call changes nothing.
\<close>

theorem ensureDefaultAdmin_idempotent:
  "(loadUsers s = Inr (JArr []) \<longrightarrow>
      ensureDefaultAdmin digest now s
        = (Inr (), saveUsers (JArr [new_user digest now ''admin@example.com'' ''admin123'' ''admin'']) s)
      \<and> loadUsers (snd (ensureDefaultAdmin digest now s))
        = Inr (JArr [new_user digest now ''admin@example.com'' ''admin123'' ''admin''])
      \<and> loadUsers (snd (ensureDefaultAdmin digest now' (snd (ensureDefaultAdmin digest now s))))
        = Inr (JArr [new_user digest now ''admin@example.com'' ''admin123'' ''admin'']))
   \<and> (loadUsers s = Inr (JArr (x # xs)) \<longrightarrow> ensureDefaultAdmin digest now s = (Inr (), s))"
proof (intro conjI impI)
  assume e: "loadUsers s = Inr (JArr [])"
  let ?admin = "new_user digest now ''admin@example.com'' ''admin123'' ''admin''"
  show 1: "ensureDefaultAdmin digest now s = (Inr (), saveUsers (JArr [?admin]) s)"
    using e by (rule ensure_empty)
  show 2: "loadUsers (snd (ensureDefaultAdmin digest now s)) = Inr (JArr [?admin])"
    using loadUsers_after_push [of "[]" digest now "''admin@example.com''" "''admin123''" "''admin''" s]
    by (simp add: 1)
  show "loadUsers (snd (ensureDefaultAdmin digest now' (snd (ensureDefaultAdmin digest now s))))
        = Inr (JArr [?admin])"
    using 2 by (simp add: ensure_nonempty)
next
  assume "loadUsers s = Inr (JArr (x # xs))"
  then show "ensureDefaultAdmin digest now s = (Inr (), s)"
    by (rule ensure_nonempty)
qed

theorem ensureDefaultAdmin_idempotent_witness:
  "loadUsers no_items = Inr (JArr [])
   \<and> loadUsers (snd (ensureDefaultAdmin demo_digest 1800
                       (snd (ensureDefaultAdmin demo_digest 1723 no_items))))
       = Inr (JArr [JObj [(''id'', JStr ''u_1723''), (''username'', JStr ''admin@example.com''),
                          (''passwordHash'', JStr ''61646d696e313233''),
                          (''role'', JStr ''admin'')]])
   \<and> loadUsers bob_only = Inr (JArr [bob])
   \<and> ensureDefaultAdmin demo_digest 1800 bob_only = (Inr (), bob_only)"
proof -
  have h1: "loadUsers no_items = Inr (JArr [])"
    by (simp add: js_eval)
  have h2: "loadUsers bob_only = Inr (JArr [bob])"
    by (simp add: js_eval)
  have admin: "new_user demo_digest 1723 ''admin@example.com'' ''admin123'' ''admin''
      = JObj [(''id'', JStr ''u_1723''), (''username'', JStr ''admin@example.com''),
              (''passwordHash'', JStr ''61646d696e313233''), (''role'', JStr ''admin'')]"
    by (simp add: js_eval)
  from h1 ensureDefaultAdmin_idempotent [of no_items demo_digest 1723 1800]
  have "loadUsers (snd (ensureDefaultAdmin demo_digest 1800
                       (snd (ensureDefaultAdmin demo_digest 1723 no_items))))
       = Inr (JArr [new_user demo_digest 1723 ''admin@example.com'' ''admin123'' ''admin''])"
    by blast
  moreover from h2 ensureDefaultAdmin_idempotent [of bob_only demo_digest 1800 1800 bob "[]"]
  have "ensureDefaultAdmin demo_digest 1800 bob_only = (Inr (), bob_only)"
    by blast
  ultimately show ?thesis
    using h1 h2 by (simp add: admin)
qed

subsection \<open>The invariant of the directory\<close>

lemma name_key_printed: "name_key (printed u) = name_key u"
  by (simp add: name_key_def username_of_printed)

lemma has_username_printed: "has_username (printed u) = has_username u"
  by (simp add: has_username_def username_of_printed)

lemma is_string_JStr: "is_string v \<Longrightarrow> \<exists>t. v = JStr t"
  by (cases v) simp_all

lemma user_record_fields:
  assumes "user_record u"
  obtains i n h r where
    "u = JObj [(''id'', JStr i), (''username'', JStr n), (''passwordHash'', JStr h), (''role'', JStr r)]"
proof -
  from assms obtain ps where u: "u = JObj ps"
    and keys: "map fst ps = [''id'', ''username'', ''passwordHash'', ''role'']"
    and vals: "list_all is_string (map snd ps)"
    by (cases u) (auto simp: user_record_def)
  from keys obtain a b c d where
    ps: "ps = [(''id'', a), (''username'', b), (''passwordHash'', c), (''role'', d)]"
    by (auto simp: map_eq_Cons_conv)
  from vals ps have str: "is_string a" "is_string b" "is_string c" "is_string d"
    by simp_all
  obtain i where i: "a = JStr i" using is_string_JStr [OF str(1)] by auto
  obtain n where n: "b = JStr n" using is_string_JStr [OF str(2)] by auto
  obtain h where h: "c = JStr h" using is_string_JStr [OF str(3)] by auto
  obtain r where r: "d = JStr r" using is_string_JStr [OF str(4)] by auto
  show thesis
    by (rule that [of i n h r]) (simp add: u ps i n h r)
qed

lemma user_record_has_username: "user_record u \<Longrightarrow> has_username u"
  by (erule user_record_fields) (simp add: has_username_def username_of_def)

lemma loadUsers_same: "tia_users s' = tia_users s \<Longrightarrow> loadUsers s' = loadUsers s"
  by (simp add: loadUsers_eq)

lemma not_matched:
  assumes "array_some (same_name username) xs = Inr False"
  shows "list_all has_username xs \<and> Some (toLowerCase username) \<notin> set (map name_key xs)"
  using array_some_Inr [OF assms] by (auto simp: matches_def)

lemma name_key_new_user:
  "name_key (new_user digest now username plainPassword role) = Some (toLowerCase username)"
  by (simp add: name_key_def username_of_new_user)

lemma unique_usernames_createUser:
  assumes "unique_usernames s"
  shows "unique_usernames (snd (createUser digest now username plainPassword role s))"
proof (cases "createUser digest now username plainPassword role s")
  case (Pair res s')
  show ?thesis
  proof (cases res)
    case (Inl e)
    with Pair createUser_Inl [of digest now username plainPassword role s e] assms
    show ?thesis by simp
  next
    case (Inr user)
    with Pair have ok: "createUser digest now username plainPassword role s = (Inr user, s')"
      by simp
    from createUser_Inr [OF ok] obtain xs where
      user: "user = new_user digest now username plainPassword role"
      and xs: "loadUsers s = Inr (JArr xs)"
      and none: "array_some (same_name username) xs = Inr False"
      and s': "s' = saveUsers (JArr (xs @ [user])) s"
      by blast
    from assms xs have d: "distinct (map name_key xs)"
      by (simp add: unique_usernames_def)
    have load: "loadUsers s' = Inr (JArr (map printed xs @ [user]))"
      by (simp add: s' user loadUsers_after_push)
    have keys: "map name_key (map printed xs) = map name_key xs"
      by (simp add: name_key_printed)
    have "has_username user"
      by (simp add: user has_username_def username_of_new_user)
    moreover have "list_all has_username (map printed xs)"
      using not_matched [OF none] by (simp add: list_all_iff has_username_printed)
    ultimately have "list_all has_username (map printed xs @ [user])"
      by simp
    moreover have "distinct (map name_key (map printed xs @ [user]))"
      using not_matched [OF none] d
      by (simp add: keys user name_key_new_user del: map_map)
    ultimately show ?thesis
      using Pair load by (simp add: unique_usernames_def)
  qed
qed

lemma unique_usernames_ensure:
  "unique_usernames s \<Longrightarrow> unique_usernames (snd (ensureDefaultAdmin digest now s))"
  using ensure_state [of digest now s] by (auto simp: unique_usernames_createUser)

lemma well_formed_createUser:
  assumes "well_formed s"
  shows "well_formed (snd (createUser digest now username plainPassword role s))"
proof (cases "createUser digest now username plainPassword role s")
  case (Pair res s')
  show ?thesis
  proof (cases res)
    case (Inl e)
    with Pair createUser_Inl [of digest now username plainPassword role s e] assms
    show ?thesis by simp
  next
    case (Inr user)
    with Pair have ok: "createUser digest now username plainPassword role s = (Inr user, s')"
      by simp
    from createUser_Inr [OF ok] obtain xs where
      user: "user = new_user digest now username plainPassword role"
      and name: "username \<noteq> []"
      and xs: "loadUsers s = Inr (JArr xs)"
      and none: "array_some (same_name username) xs = Inr False"
      and s': "s' = saveUsers (JArr (xs @ [user])) s"
      by blast
    from assms xs have wf: "list_all user_record xs"
      "list_all (\<lambda>x. username_of x \<noteq> Some []) xs" "distinct (map name_key xs)"
      by (simp_all add: well_formed_def)
    have same: "map printed xs = xs"
      using wf(1) by (simp add: list_all_iff map_idI printed_user_record)
    have load: "loadUsers s' = Inr (JArr (xs @ [user]))"
      by (simp add: s' user loadUsers_after_push same)
    have "distinct (map name_key (xs @ [user]))"
      using not_matched [OF none] wf(3) by (simp add: user name_key_new_user)
    with wf name Pair load show ?thesis
      by (simp add: well_formed_def user user_record_new_user username_of_new_user)
  qed
qed

lemma well_formed_ensure:
  "well_formed s \<Longrightarrow> well_formed (snd (ensureDefaultAdmin digest now s))"
  using ensure_state [of digest now s] by (auto simp: well_formed_createUser)

lemma well_formed_same: "tia_users s' = tia_users s \<Longrightarrow> well_formed s' = well_formed s"
  using loadUsers_same [of s' s] by (simp add: well_formed_def)

lemma setSession_users: "tia_users (snd (setSession stamp user remember s)) = tia_users s"
  by (simp add: setSession_def Let_def split: sum.split)

lemma login_users: "tia_users (snd (login digest stamp username password remember s)) = tia_users s"
proof (cases "authenticate digest s username password")
  case (Inl e)
  then show ?thesis by (simp add: login_def)
next
  case (Inr res)
  show ?thesis
  proof (cases res)
    case (Success user)
    obtain r s' where r: "setSession stamp user remember s = (r, s')"
      by (cases "setSession stamp user remember s")
    with setSession_users [of stamp user remember s] have "tia_users s' = tia_users s"
      by simp
    with Inr Success r show ?thesis
      by (cases r) (simp_all add: login_def)
  next
    case (Failure m)
    with Inr show ?thesis by (simp add: login_def)
  qed
qed

lemma logout_users: "tia_users (logout forget s) = tia_users s"
  by (simp add: logout_def clearSession_def Let_def)

lemma getSession_users: "tia_users (snd (getSession stamp s)) = tia_users s"
proof (cases "falsy_text (tia_session s)")
  case False
  then show ?thesis
    by (simp add: getSession_def Let_def split: sum.split)
next
  case True
  show ?thesis
  proof (cases "tia_remember s")
    case None
    with True show ?thesis by (simp add: getSession_def)
  next
    case (Some remembered)
    show ?thesis
    proof (cases "findUserByUsername s remembered")
      case (Inl e)
      with True Some show ?thesis by (simp add: getSession_def)
    next
      case (Inr user)
      obtain r s' where r: "setSession stamp user True s = (r, s')"
        by (cases "setSession stamp user True s")
      with setSession_users [of stamp user True s] have "tia_users s' = tia_users s"
        by simp
      with True Some Inr r show ?thesis
        by (cases r) (simp_all add: getSession_def)
    qed
  qed
qed

lemma reachable_well_formed: "reachable digest s \<Longrightarrow> well_formed s"
proof (induction rule: reachable.induct)
  case (start s)
  then show ?case by (simp add: well_formed_def)
next
  case (create s now username plainPassword role)
  then show ?case by (simp add: well_formed_createUser)
next
  case (ensure s now)
  then show ?case by (simp add: well_formed_ensure)
next
  case (log_in s stamp username password remember)
  then show ?case
    using well_formed_same [OF login_users, of digest stamp username password remember s]
    by simp
next
  case (log_out s forget)
  then show ?case
    using well_formed_same [OF logout_users, of forget s] by simp
next
  case (session s stamp)
  then show ?case
    using well_formed_same [OF getSession_users, of stamp s] by simp
qed

lemma well_formed_unique:
  assumes "well_formed s"
  shows "unique_usernames s"
proof -
  obtain v where v: "loadUsers s = Inr v"
    by (simp add: loadUsers_eq)
  with assms obtain xs where xs: "v = JArr xs"
    by (cases v) (simp_all add: well_formed_def)
  with assms v show ?thesis
    by (simp add: well_formed_def unique_usernames_def list_all_iff user_record_has_username)
qed

text \<open>
  C6. In every state the program gets into from an empty directory (by \<^verbatim>\<open>createUser\<close>,
  \<^verbatim>\<open>ensureDefaultAdmin\<close> and the session operations), no two records have user names
  that are equal up to case; and \<^verbatim>\<open>createUser\<close> and \<^verbatim>\<open>ensureDefaultAdmin\<close> keep this
  true from any state where it is true.
\<close>

theorem unique_usernames_invariant:
  "(reachable digest s \<longrightarrow> unique_usernames s)
   \<and> (unique_usernames s \<longrightarrow>
        unique_usernames (snd (createUser digest now username plainPassword role s))
        \<and> unique_usernames (snd (ensureDefaultAdmin digest now s)))"
  by (simp add: reachable_well_formed well_formed_unique unique_usernames_createUser
      unique_usernames_ensure)

theorem unique_usernames_invariant_witness:
  "reachable demo_digest bob_only \<and> unique_usernames bob_only
   \<and> unique_usernames (snd (createUser demo_digest 1800 ''Alice'' ''pw2'' ''viewer'' bob_only))
   \<and> unique_usernames (snd (ensureDefaultAdmin demo_digest 1800 bob_only))"
proof -
  have "reachable demo_digest no_items"
    by (rule reachable.start) (simp add: js_eval)
  from reachable.create [OF this, of 1723 "''Bob''" "''pw''" "''admin''"]
  have r: "reachable demo_digest bob_only"
    by (simp add: createUser_bob)
  with unique_usernames_invariant [of demo_digest bob_only 1800 "''Alice''" "''pw2''" "''viewer''"]
  show ?thesis
    by blast
qed

subsection \<open>Remembered sessions\<close>

lemma find_distinct_key:
  "distinct (map f xs) \<Longrightarrow> x \<in> set xs \<Longrightarrow> find (\<lambda>y. f y = f x) xs = Some x"
  by (induction xs) (auto simp: image_iff)

lemma find_own_name:
  assumes "distinct (map name_key xs)" and "u \<in> set xs" and "username_of u = Some n"
  shows "find (matches n) xs = Some u"
proof -
  have "matches n = (\<lambda>y. name_key y = name_key u)"
    using assms(3) by (auto simp: matches_def name_key_def)
  with find_distinct_key [OF assms(1,2)] show ?thesis
    by simp
qed

lemma setSession_user_record:
  "setSession stamp
     (JObj [(''id'', JStr i), (''username'', JStr n), (''passwordHash'', JStr h), (''role'', JStr r)])
     True s
   = (Inr (), s\<lparr>tia_session := Some (Json (JObj [(''id'', JStr i), (''username'', JStr n),
                                     (''role'', JStr r), (''createdAt'', JStr stamp)])),
               tia_remember := Some n\<rparr>)"
  by (simp add: setSession_def JSON_stringify_def)

text \<open>
  C4. In every state the program gets into, for every user \<open>u\<close> of the directory:
  \<^verbatim>\<open>setSession(u, true)\<close> succeeds; \<^verbatim>\<open>clearSession\<close> then removes the session and leaves
  the remembered name and the directory as they are; and \<^verbatim>\<open>getSession\<close> then returns a
  session record with the \<^verbatim>\<open>username\<close> and the \<^verbatim>\<open>role\<close> of \<open>u\<close>, which it has written back
  under the session key.
\<close>

theorem remembered_session_rehydrates:
  assumes reach: "reachable digest s"
    and dir: "loadUsers s = Inr (JArr xs)"
    and u: "u \<in> set xs"
  shows "\<exists>s1 s2 session s3.
           setSession stamp u True s = (Inr (), s1)
           \<and> clearSession s1 = s2
           \<and> tia_session s2 = None \<and> tia_remember s2 = tia_remember s1
           \<and> tia_users s2 = tia_users s1
           \<and> getSession stamp' s2 = (Inr session, s3)
           \<and> has_username session
           \<and> property session ''username'' = property u ''username''
           \<and> property session ''role'' = property u ''role''
           \<and> tia_session s3 = Some (JSON_stringify session)"
proof -
  from reachable_well_formed [OF reach] dir
  have recs: "list_all user_record xs"
    and named: "list_all (\<lambda>x. username_of x \<noteq> Some []) xs"
    and dist: "distinct (map name_key xs)"
    by (simp_all add: well_formed_def)
  from recs u have "user_record u"
    by (simp add: list_all_iff)
  then obtain i n h r where
    fields: "u = JObj [(''id'', JStr i), (''username'', JStr n),
                       (''passwordHash'', JStr h), (''role'', JStr r)]"
    by (rule user_record_fields)
  then have name: "username_of u = Some n"
    by (simp add: username_of_def)
  with named u have n: "n \<noteq> []"
    by (auto simp: list_all_iff)
  let ?rec = "\<lambda>t. JObj [(''id'', JStr i), (''username'', JStr n), (''role'', JStr r),
                          (''createdAt'', JStr t)]"
  let ?s1 = "s\<lparr>tia_session := Some (Json (?rec stamp)), tia_remember := Some n\<rparr>"
  let ?s2 = "s\<lparr>tia_session := None, tia_remember := Some n\<rparr>"
  let ?s3 = "s\<lparr>tia_session := Some (Json (?rec stamp')), tia_remember := Some n\<rparr>"
  have set1: "setSession stamp u True s = (Inr (), ?s1)"
    by (simp add: fields setSession_user_record)
  have clear: "clearSession ?s1 = ?s2"
    by (simp add: clearSession_def)
  have "loadUsers ?s2 = Inr (JArr xs)"
    using dir loadUsers_same [of ?s2 s] by simp
  moreover have "list_all has_username xs"
    using recs by (simp add: list_all_iff user_record_has_username)
  ultimately have "findUserByUsername ?s2 n = Inr u"
    by (simp add: findUserByUsername_find find_own_name [OF dist u name])
  moreover have "setSession stamp' u True ?s2 = (Inr (), ?s3)"
    by (simp add: fields setSession_user_record)
  moreover have "truthy u"
    by (simp add: fields)
  ultimately have get: "getSession stamp' ?s2 = (Inr (?rec stamp'), ?s3)"
    using n by (simp add: getSession_def)
  have "has_username (?rec stamp')"
    by (simp add: has_username_def username_of_def)
  moreover have "property (?rec stamp') ''username'' = property u ''username''"
    by (simp add: fields)
  moreover have "property (?rec stamp') ''role'' = property u ''role''"
    by (simp add: fields)
  moreover have "tia_session ?s3 = Some (JSON_stringify (?rec stamp'))"
    by (simp add: JSON_stringify_def)
  moreover have "tia_session ?s2 = None \<and> tia_remember ?s2 = tia_remember ?s1
      \<and> tia_users ?s2 = tia_users ?s1"
    by simp
  ultimately show ?thesis
    using set1 clear get by blast
qed

theorem remembered_session_rehydrates_witness:
  "reachable demo_digest bob_only \<and> loadUsers bob_only = Inr (JArr [bob]) \<and> bob \<in> set [bob]
   \<and> (\<exists>s1 s2 session s3.
           setSession ''2024-05-01T10:00:00.000Z'' bob True bob_only = (Inr (), s1)
           \<and> clearSession s1 = s2
           \<and> tia_session s2 = None \<and> tia_remember s2 = tia_remember s1
           \<and> tia_users s2 = tia_users s1
           \<and> getSession ''2024-05-02T08:30:00.000Z'' s2 = (Inr session, s3)
           \<and> has_username session
           \<and> property session ''username'' = property bob ''username''
           \<and> property session ''role'' = property bob ''role''
           \<and> tia_session s3 = Some (JSON_stringify session))"
proof -
  have "reachable demo_digest no_items"
    by (rule reachable.start) (simp add: js_eval)
  from reachable.create [OF this, of 1723 "''Bob''" "''pw''" "''admin''"]
  have h1: "reachable demo_digest bob_only"
    by (simp add: createUser_bob)
  have h2: "loadUsers bob_only = Inr (JArr [bob])"
    by (simp add: js_eval)
  have h3: "bob \<in> set [bob]"
    by simp
  from h1 h2 h3
    remembered_session_rehydrates [OF h1 h2 h3, of "''2024-05-01T10:00:00.000Z''"
      "''2024-05-02T08:30:00.000Z''"]
  show ?thesis
    by blast
qed

text \<open>
  C5, as the program has it. Where the session key is not set (or holds the empty
  string) and the remembered name resolves to no user, \<^verbatim>\<open>getSession\<close> returns \<^verbatim>\<open>null\<close> and
  leaves the storage as it is: the remembered name stays.
\<close>

theorem getSession_unresolved_pointer:
  assumes "falsy_text (tia_session s)" and "tia_remember s = Some remembered"
    and "findUserByUsername s remembered = Inr JNull"
  shows "getSession stamp s = (Inr JNull, s)"
  using assms by (simp add: getSession_def)

theorem getSession_unresolved_pointer_witness:
  "falsy_text (tia_session remembered_ghost)
   \<and> tia_remember remembered_ghost = Some ''ghost''
   \<and> findUserByUsername remembered_ghost ''ghost'' = Inr JNull
   \<and> getSession ''2024-05-01T10:00:00.000Z'' remembered_ghost = (Inr JNull, remembered_ghost)"
proof -
  have h1: "falsy_text (tia_session remembered_ghost)"
    by (simp add: remembered_ghost_def)
  have h2: "tia_remember remembered_ghost = Some ''ghost''"
    by (simp add: remembered_ghost_def)
  have h3: "findUserByUsername remembered_ghost ''ghost'' = Inr JNull"
    by (simp add: findUserByUsername_def js_eval)
  from h1 h2 h3 getSession_unresolved_pointer [OF h1 h2 h3, of "''2024-05-01T10:00:00.000Z''"]
  show ?thesis by simp
qed

text \<open>
  C5 as stated fails: with the name \<^verbatim>\<open>ghost\<close> remembered and no user in the directory,
  \<^verbatim>\<open>getSession\<close> returns \<^verbatim>\<open>null\<close> and the name is still remembered afterwards.
\<close>

theorem getSession_pointer_kept_counterexample:
  "tia_session remembered_ghost = None
   \<and> findUserByUsername remembered_ghost ''ghost'' = Inr JNull
   \<and> fst (getSession ''2024-05-01T10:00:00.000Z'' remembered_ghost) = Inr JNull
   \<and> tia_remember (snd (getSession ''2024-05-01T10:00:00.000Z'' remembered_ghost))
       = Some ''ghost''"
  by (simp add: getSession_def findUserByUsername_def js_eval)

subsection \<open>A session key that holds no JSON text\<close>

text \<open>
  C10, as the program has it. Where the session key holds a non-empty string that is no
  JSON text, \<^verbatim>\<open>getSession\<close> returns \<^verbatim>\<open>null\<close> without looking at the remembered name and
  leaves the storage as it is, and \<^verbatim>\<open>isAuthenticated\<close> returns \<^verbatim>\<open>false\<close>.
\<close>

theorem getSession_malformed:
  assumes "tia_session s = Some Malformed"
  shows "getSession stamp s = (Inr JNull, s) \<and> isAuthenticated stamp s = (Inr False, s)"
  using assms by (simp add: getSession_def isAuthenticated_def)

theorem getSession_malformed_witness:
  "tia_session (bob_only\<lparr>tia_remember := Some ''Bob'', tia_session := Some Malformed\<rparr>)
     = Some Malformed
   \<and> getSession ''2024-05-01T10:00:00.000Z''
        (bob_only\<lparr>tia_remember := Some ''Bob'', tia_session := Some Malformed\<rparr>)
     = (Inr JNull, bob_only\<lparr>tia_remember := Some ''Bob'', tia_session := Some Malformed\<rparr>)
   \<and> isAuthenticated ''2024-05-01T10:00:00.000Z''
        (bob_only\<lparr>tia_remember := Some ''Bob'', tia_session := Some Malformed\<rparr>)
     = (Inr False, bob_only\<lparr>tia_remember := Some ''Bob'', tia_session := Some Malformed\<rparr>)"
proof -
  have h: "tia_session (bob_only\<lparr>tia_remember := Some ''Bob'', tia_session := Some Malformed\<rparr>)
     = Some Malformed"
    by simp
  from h getSession_malformed [OF h, of "''2024-05-01T10:00:00.000Z''"]
  show ?thesis by simp
qed

text \<open>
  C10 as stated fails for the empty string, which is no JSON text either: \<^verbatim>\<open>!raw\<close> is
  true for it, so with Bob remembered \<^verbatim>\<open>getSession\<close> builds a new session from the
  remembered name, writes it, and \<^verbatim>\<open>isAuthenticated\<close> returns \<^verbatim>\<open>true\<close>.
\<close>

theorem getSession_empty_string_counterexample:
  "JSON_parse Empty = Inl SyntaxError
   \<and> tia_session bob_blank_session = Some Empty
   \<and> getSession ''2024-05-01T10:00:00.000Z'' bob_blank_session
       = (Inr (JObj [(''id'', JStr ''u_1723''), (''username'', JStr ''Bob''),
                     (''role'', JStr ''admin''),
                     (''createdAt'', JStr ''2024-05-01T10:00:00.000Z'')]),
          bob_blank_session
            \<lparr>tia_session := Some (Json (JObj [(''id'', JStr ''u_1723''),
                 (''username'', JStr ''Bob''), (''role'', JStr ''admin''),
                 (''createdAt'', JStr ''2024-05-01T10:00:00.000Z'')]))\<rparr>)
   \<and> isAuthenticated ''2024-05-01T10:00:00.000Z'' bob_blank_session
       = (Inr True,
          bob_blank_session
            \<lparr>tia_session := Some (Json (JObj [(''id'', JStr ''u_1723''),
                 (''username'', JStr ''Bob''), (''role'', JStr ''admin''),
                 (''createdAt'', JStr ''2024-05-01T10:00:00.000Z'')]))\<rparr>)"
  by (simp add: isAuthenticated_def getSession_def setSession_def findUserByUsername_def
      same_name_def js_eval)

subsection \<open>Finding a created user under another spelling\<close>

lemma upper_char_lower:
  assumes c: "(of_char c :: nat) < 128" and d: "upper_char c = [of_char d]"
  shows "lower_char d = lower_char c"
proof -
  let ?n = "of_char c :: nat"
  show ?thesis
  proof (cases "97 \<le> ?n \<and> ?n \<le> 122")
    case True
    with d have od: "(of_char d :: nat) = ?n - 32"
      by (simp add: upper_char_def Let_def)
    from True have up: "65 \<le> ?n - 32 \<and> ?n - 32 \<le> 90"
      by auto
    from True have sum: "?n - 32 + 32 = ?n"
      by auto
    have "lower_char d = char_of (?n - 32 + 32)"
      using up by (simp add: lower_char_def Let_def od)
    also have "\<dots> = char_of ?n"
      by (simp only: sum)
    also have "\<dots> = c"
      by simp
    finally have "lower_char d = c" .
    moreover from True have "\<not> ((65 \<le> ?n \<and> ?n \<le> 90) \<or> (192 \<le> ?n \<and> ?n \<le> 222 \<and> ?n \<noteq> 215))"
      by auto
    then have "lower_char c = c"
      unfolding lower_char_def Let_def by (simp only: if_False)
    ultimately show ?thesis
      by simp
  next
    case False
    with c d have "(of_char d :: nat) = ?n"
      by (auto simp: upper_char_def Let_def split: if_splits)
    then have "d = c"
      by (simp only: of_char_eq_iff)
    then show ?thesis by simp
  qed
qed

lemma upper_char_ascii_single:
  "(of_char c :: nat) < 128 \<Longrightarrow> \<exists>m. upper_char c = [m]"
  by (simp add: upper_char_def Let_def)

lemma ascii_upper_lower:
  "ascii username \<Longrightarrow> code_units w = toUpperCase username \<Longrightarrow>
     toLowerCase w = toLowerCase username"
proof (induction username arbitrary: w)
  case Nil
  then show ?case
    by (simp add: toUpperCase_def code_units_def toLowerCase_def)
next
  case (Cons c cs)
  from Cons.prems(1) have c: "(of_char c :: nat) < 128" and cs: "ascii cs"
    by (simp_all add: ascii_def)
  from upper_char_ascii_single [OF c] obtain m where m: "upper_char c = [m]"
    by blast
  with Cons.prems(2) have w: "code_units w = m # toUpperCase cs"
    by (simp add: toUpperCase_def)
  then obtain d ds where dds: "w = d # ds"
    by (cases w) (simp_all add: code_units_def)
  with w have d: "of_char d = m" and ds: "code_units ds = toUpperCase cs"
    by (simp_all add: code_units_def)
  from m d have "upper_char c = [of_char d]"
    by simp
  from upper_char_lower [OF c this] Cons.IH [OF cs ds] show ?case
    by (simp add: dds toLowerCase_def)
qed

lemma array_some_find:
  "array_some f xs = Inr False \<Longrightarrow> array_find f xs = Inr None"
  by (induction xs) (auto split: sum.splits if_splits)

lemma createUser_find_same:
  assumes ok: "createUser digest now username plainPassword role s = (Inr user, s')"
    and same: "toLowerCase v = toLowerCase username"
  shows "findUserByUsername s' v = Inr user"
proof -
  from createUser_Inr [OF ok] obtain xs where
    user: "user = new_user digest now username plainPassword role"
    and none: "array_some (same_name username) xs = Inr False"
    and s': "s' = saveUsers (JArr (xs @ [user])) s"
    by blast
  have fn: "same_name v = same_name username"
    by (rule ext) (rule same_name_lower [OF same])
  have load: "loadUsers s' = Inr (JArr (map printed xs @ [user]))"
    by (simp add: s' user loadUsers_after_push)
  have "array_some (same_name username) (map printed xs) = Inr False"
    by (simp add: array_some_map_printed none)
  then have "array_find (same_name v) (map printed xs) = Inr None"
    by (simp add: fn array_some_find)
  then have "array_find (same_name v) (map printed xs @ [user]) = Inr (Some user)"
    by (simp add: array_find_append user same_name_new_user same)
  moreover have "truthy user"
    by (simp add: user new_user_def)
  ultimately show ?thesis
    by (simp add: findUserByUsername_def load)
qed

text \<open>
  C7, as the program has it. After a successful \<^verbatim>\<open>createUser(u, p, r)\<close>,
  \<^verbatim>\<open>findUserByUsername\<close> returns the created record, with \<^verbatim>\<open>passwordHash\<close> the hash of
  \<open>p\<close> and \<^verbatim>\<open>username\<close> \<open>u\<close>, for \<open>u\<close> itself, for every name whose lower-case form is that
  of \<open>u\<close>, and for the upper-case form of \<open>u\<close> when \<open>u\<close> is made of ASCII characters.
\<close>

theorem createUser_then_find:
  assumes ok: "createUser digest now username plainPassword role s = (Inr user, s')"
  shows "findUserByUsername s' username = Inr user
         \<and> (toLowerCase v = toLowerCase username \<longrightarrow> findUserByUsername s' v = Inr user)
         \<and> (ascii username \<and> code_units w = toUpperCase username \<longrightarrow>
                findUserByUsername s' w = Inr user)
         \<and> property user ''passwordHash'' = Inr (Some (JStr (hashPassword digest plainPassword)))
         \<and> property user ''username'' = Inr (Some (JStr username))"
proof -
  from createUser_Inr [OF ok] have user: "user = new_user digest now username plainPassword role"
    by simp
  have "findUserByUsername s' username = Inr user"
    by (rule createUser_find_same [OF ok]) simp
  moreover have "toLowerCase v = toLowerCase username \<longrightarrow> findUserByUsername s' v = Inr user"
    by (simp add: createUser_find_same [OF ok])
  moreover have "ascii username \<and> code_units w = toUpperCase username \<longrightarrow>
                findUserByUsername s' w = Inr user"
    by (simp add: createUser_find_same [OF ok] ascii_upper_lower)
  ultimately show ?thesis
    by (simp add: user new_user_def)
qed

theorem createUser_then_find_witness:
  "createUser demo_digest 1723 ''Bob'' ''pw'' ''admin'' no_items = (Inr bob, bob_only)
   \<and> findUserByUsername bob_only ''Bob'' = Inr bob
   \<and> toLowerCase ''bOB'' = toLowerCase ''Bob'' \<and> findUserByUsername bob_only ''bOB'' = Inr bob
   \<and> ascii ''Bob'' \<and> code_units ''BOB'' = toUpperCase ''Bob''
   \<and> findUserByUsername bob_only ''BOB'' = Inr bob
   \<and> property bob ''passwordHash'' = Inr (Some (JStr (hashPassword demo_digest ''pw'')))
   \<and> property bob ''username'' = Inr (Some (JStr ''Bob''))"
proof -
  have h1: "toLowerCase ''bOB'' = toLowerCase ''Bob''"
    by (simp add: js_eval)
  have h2: "ascii ''Bob'' \<and> code_units ''BOB'' = toUpperCase ''Bob''"
    by (simp add: js_eval)
  from h1 h2 createUser_then_find [OF createUser_bob, of "''bOB''" "''BOB''"] createUser_bob
  show ?thesis
    by blast
qed

text \<open>
  C7 as stated fails for the upper-case form of a name with a sharp s: \<^verbatim>\<open>toUpperCase\<close>
  makes \<^verbatim>\<open>SS\<close> of it and \<^verbatim>\<open>toLowerCase\<close> makes \<^verbatim>\<open>ss\<close> of that, which is not the
  lower-case form of the name, so the user created under the name is not found.
\<close>

theorem find_upper_case_counterexample:
  "createUser demo_digest 1723 [CHR 0xDF] ''pw'' ''admin'' no_items
     = (Inr (JObj [(''id'', JStr ''u_1723''), (''username'', JStr [CHR 0xDF]),
                   (''passwordHash'', JStr ''7077''), (''role'', JStr ''admin'')]),
        no_items\<lparr>tia_users := Some (Json (JArr
          [JObj [(''id'', JStr ''u_1723''), (''username'', JStr [CHR 0xDF]),
                 (''passwordHash'', JStr ''7077''), (''role'', JStr ''admin'')]]))\<rparr>)
   \<and> code_units ''SS'' = toUpperCase [CHR 0xDF]
   \<and> findUserByUsername
        (no_items\<lparr>tia_users := Some (Json (JArr
          [JObj [(''id'', JStr ''u_1723''), (''username'', JStr [CHR 0xDF]),
                 (''passwordHash'', JStr ''7077''), (''role'', JStr ''admin'')]]))\<rparr>) ''SS''
     = Inr JNull"
  by (simp add: createUser_def findUserByUsername_def same_name_def js_eval)

subsection \<open>Identifiers\<close>

lemma digit_value_char_of: "d < 10 \<Longrightarrow> digit_value (char_of (48 + d)) = d"
  by (simp add: digit_value_def)

lemma digits_value_snoc: "digits_value (cs @ [c]) = 10 * digits_value cs + digit_value c"
  by (simp add: digits_value_def)

lemma digits_value_digits: "digits_value (digits n) = n"
proof (induction n rule: digits.induct)
  case (1 n)
  show ?case
  proof (cases "n < 10")
    case True
    then show ?thesis
      by (subst digits.simps) (simp add: digits_value_def digit_value_char_of)
  next
    case False
    with 1 have "digits_value (digits (n div 10)) = n div 10"
      by simp
    with False show ?thesis
      by (subst digits.simps) (simp add: digits_value_snoc digit_value_char_of)
  qed
qed

lemma digits_inject: "digits m = digits n \<Longrightarrow> m = n"
  by (metis digits_value_digits)

lemma digits_no_minus: "CHR ''-'' \<notin> set (digits n)"
proof (induction n rule: digits.induct)
  case (1 n)
  have d: "CHR ''-'' \<noteq> char_of (48 + k)" if "k < 10" for k :: nat
  proof
    assume "CHR ''-'' = char_of (48 + k)"
    then have "(of_char (char_of (48 + k)) :: nat) = of_char CHR ''-''"
      by simp
    with that show False
      by simp
  qed
  show ?case
  proof (cases "n < 10")
    case True
    then show ?thesis
      by (subst digits.simps) (simp add: d)
  next
    case False
    with 1 show ?thesis
      by (subst digits.simps) (simp add: d)
  qed
qed

lemma digits_not_Nil: "digits n \<noteq> []"
  by (subst digits.simps) simp

lemma number_text_inject: "number_text i = number_text j \<Longrightarrow> i = j"
proof -
  assume eq: "number_text i = number_text j"
  have pos: "\<And>k. 0 \<le> k \<Longrightarrow> hd (number_text k) \<noteq> CHR ''-''"
  proof -
    fix k :: int
    assume "0 \<le> k"
    then have "number_text k = digits (nat k)"
      by (simp add: number_text_def)
    moreover have "hd (digits (nat k)) \<in> set (digits (nat k))"
      by (simp add: digits_not_Nil)
    ultimately show "hd (number_text k) \<noteq> CHR ''-''"
      using digits_no_minus [of "nat k"] by auto
  qed
  have neg: "\<And>k. k < 0 \<Longrightarrow> hd (number_text k) = CHR ''-''"
    by (simp add: number_text_def)
  show "i = j"
  proof (cases "i < 0")
    case True
    with eq neg [of i] pos [of j] have "j < 0"
      by (cases "j < 0") auto
    with True eq have "digits (nat (- i)) = digits (nat (- j))"
      by (simp add: number_text_def)
    then have "nat (- i) = nat (- j)"
      by (rule digits_inject)
    with True \<open>j < 0\<close> show ?thesis by simp
  next
    case False
    with eq neg [of j] pos [of i] have "\<not> j < 0"
      by (cases "j < 0") auto
    with False eq have "digits (nat i) = digits (nat j)"
      by (simp add: number_text_def)
    then have "nat i = nat j"
      by (rule digits_inject)
    with False \<open>\<not> j < 0\<close> show ?thesis by simp
  qed
qed

text \<open>The \<^verbatim>\<open>id\<close> of a created record is made of the clock reading of the call and of
  nothing else: the records of two successful calls have the same \<^verbatim>\<open>id\<close> exactly when the
  calls read the same clock value.\<close>

lemma createUser_id_clock:
  assumes "createUser digest t1 u1 p1 r1 s1 = (Inr a, s1')"
    and "createUser digest t2 u2 p2 r2 s2 = (Inr b, s2')"
  shows "property a ''id'' = Inr (Some (JStr (''u_'' @ number_text t1)))
         \<and> property b ''id'' = Inr (Some (JStr (''u_'' @ number_text t2)))
         \<and> (property a ''id'' = property b ''id'' \<longleftrightarrow> t1 = t2)"
proof -
  from createUser_Inr [OF assms(1)] have a: "a = new_user digest t1 u1 p1 r1"
    by simp
  from createUser_Inr [OF assms(2)] have b: "b = new_user digest t2 u2 p2 r2"
    by simp
  show ?thesis
    by (auto simp: a b new_user_def dest: number_text_inject)
qed

text \<open>
  C8 does not hold of the program. Two calls of \<^verbatim>\<open>createUser\<close> that read the same clock
  value both succeed and give their records the same \<^verbatim>\<open>id\<close>: from the empty storage, Bob
  and Alice created at clock reading 1723 are two different records of one directory, a
  state the program gets into, and both have the id \<^verbatim>\<open>u_1723\<close>.
\<close>

theorem createUser_same_clock_collision:
  "createUser demo_digest 1723 ''Bob'' ''pw'' ''admin'' no_items = (Inr bob, bob_only)
   \<and> createUser demo_digest 1723 ''Alice'' ''pw2'' ''viewer'' bob_only = (Inr alice, bob_and_alice)
   \<and> reachable demo_digest bob_and_alice
   \<and> loadUsers bob_and_alice = Inr (JArr [bob, alice])
   \<and> bob \<noteq> alice
   \<and> property bob ''id'' = Inr (Some (JStr ''u_1723''))
   \<and> property alice ''id'' = Inr (Some (JStr ''u_1723''))"
proof -
  have second: "createUser demo_digest 1723 ''Alice'' ''pw2'' ''viewer'' bob_only
                  = (Inr alice, bob_and_alice)"
    by (simp add: createUser_def same_name_def alice_def bob_and_alice_def js_eval)
  have "reachable demo_digest no_items"
    by (rule reachable.start) (simp add: js_eval)
  from reachable.create [OF this, of 1723 "''Bob''" "''pw''" "''admin''"]
  have "reachable demo_digest bob_only"
    by (simp add: createUser_bob)
  from reachable.create [OF this, of 1723 "''Alice''" "''pw2''" "''viewer''"]
  have "reachable demo_digest bob_and_alice"
    by (simp add: second)
  moreover have "loadUsers bob_and_alice = Inr (JArr [bob, alice])"
    by (simp add: bob_and_alice_def loadUsers_eq)
  moreover have "bob \<noteq> alice"
    by (simp add: bob_def alice_def)
  moreover have "property bob ''id'' = Inr (Some (JStr ''u_1723''))"
    by (simp add: bob_def)
  moreover have "property alice ''id'' = Inr (Some (JStr ''u_1723''))"
    by (simp add: alice_def)
  ultimately show ?thesis
    using createUser_bob second by blast
qed

end
